theory Spec2Isabelle
  imports Main "HOL-Library.Word" "HOL-Library.Sublist"
begin

unbundle bit_operations_syntax

section \<open>Outcomes of a call\<close>

text \<open>
  A Go function of this package ends in one of three ways: it returns a value, it returns
  a non-nil \<open>error\<close>, or it panics. The errors are the ones built by \<open>errors.New\<close> and
  \<open>fmt.Errorf\<close> in \<open>cron.go\<close>; the panics are the explicit \<open>panic(...)\<close> calls and the
  run-time panics of the operations the code uses (shifts, slice expressions).
\<close>

datatype cronField =
  cronFieldSecond | cronFieldMinute | cronFieldHour
  | cronFieldDayOfMonth | cronFieldMonth | cronFieldDayOfWeek

datatype error =
  ErrEmptyExpression               \<comment> \<open>cron expression must not be empty\<close>
  | ErrFieldCount nat string       \<comment> \<open>cron expression must consist of 6 fields : found n in "s"\<close>
  | ErrEmptyValue                  \<comment> \<open>value must not be empty\<close>
  | ErrNotNumber cronField string  \<comment> \<open>the value in field f must be number : s\<close>
  | ErrNotBetween cronField int int \<comment> \<open>the value in field f must be between lo and hi\<close>

datatype panic =
  PanicError string                \<comment> \<open>\<open>panic(err)\<close> with the error of \<open>strconv.Atoi\<close> on this string\<close>
  | PanicMessage string            \<comment> \<open>\<open>panic("...")\<close>\<close>
  | RuntimeNegativeShift           \<comment> \<open>runtime error: negative shift amount\<close>
  | RuntimeSliceBounds             \<comment> \<open>runtime error: slice bounds out of range\<close>
  | RuntimeNilCall                 \<comment> \<open>runtime error: call of a nil func value\<close>
  | RuntimeIndexOutOfRange         \<comment> \<open>runtime error: index out of range\<close>
  | RuntimeNilDereference          \<comment> \<open>runtime error: invalid memory address or nil pointer dereference\<close>

datatype 'a result = Ok 'a | Err error | Panic panic

section \<open>The library functions the parser calls\<close>

text \<open>
  Go strings are byte sequences, here \<open>string\<close>. The functions of \<open>strings\<close> and
  \<open>strconv\<close> are modelled on ASCII input: white space is the six ASCII space bytes and
  \<open>ToUpper\<close> maps \<open>a\<close>..\<open>z\<close>. Separators and patterns are non-empty at every call of
  the source.
\<close>

definition isSpace :: "char \<Rightarrow> bool" where
  "isSpace c = (c = CHR 0x09 \<or> c = CHR 0x0A \<or> c = CHR 0x0B \<or> c = CHR 0x0C
                \<or> c = CHR 0x0D \<or> c = CHR '' '')"

fun fieldsFrom :: "string \<Rightarrow> string \<Rightarrow> string list" where
  "fieldsFrom cur [] = (if cur = [] then [] else [rev cur])"
| "fieldsFrom cur (c # s) =
     (if isSpace c then (if cur = [] then fieldsFrom [] s else rev cur # fieldsFrom [] s)
      else fieldsFrom (c # cur) s)"

definition Fields :: "string \<Rightarrow> string list" where
  "Fields s = fieldsFrom [] s"

primrec Index :: "string \<Rightarrow> string \<Rightarrow> int" where
  "Index [] sub = (if sub = [] then 0 else - 1)"
| "Index (c # s) sub =
     (if prefix sub (c # s) then 0
      else (let r = Index s sub in if r = - 1 then - 1 else r + 1))"

text \<open>\<open>skip\<close> counts the bytes of a separator just matched that are still to be passed.\<close>

fun splitFrom :: "string \<Rightarrow> string \<Rightarrow> nat \<Rightarrow> string \<Rightarrow> string list" where
  "splitFrom sep cur skip [] = [rev cur]"
| "splitFrom sep cur (Suc k) (c # s) = splitFrom sep cur k s"
| "splitFrom sep cur 0 (c # s) =
     (if prefix sep (c # s) then rev cur # splitFrom sep [] (length sep - 1) s
      else splitFrom sep (c # cur) 0 s)"

definition Split :: "string \<Rightarrow> string \<Rightarrow> string list" where
  "Split s sep = splitFrom sep [] 0 s"

fun replaceFrom :: "string \<Rightarrow> string \<Rightarrow> nat \<Rightarrow> string \<Rightarrow> string" where
  "replaceFrom old new skip [] = []"
| "replaceFrom old new (Suc k) (c # s) = replaceFrom old new k s"
| "replaceFrom old new 0 (c # s) =
     (if prefix old (c # s) then new @ replaceFrom old new (length old - 1) s
      else c # replaceFrom old new 0 s)"

definition ReplaceAll :: "string \<Rightarrow> string \<Rightarrow> string \<Rightarrow> string" where
  "ReplaceAll s old new = replaceFrom old new 0 s"

definition toUpperChar :: "char \<Rightarrow> char" where
  "toUpperChar c =
     (if (97::nat) \<le> of_char c \<and> of_char c \<le> (122::nat)
      then char_of (of_char c - (32::nat)) else c)"

definition ToUpper :: "string \<Rightarrow> string" where
  "ToUpper s = map toUpperChar s"

definition isDigit :: "char \<Rightarrow> bool" where
  "isDigit c = ((48::nat) \<le> of_char c \<and> of_char c \<le> (57::nat))"

fun digitsValue :: "int \<Rightarrow> string \<Rightarrow> int" where
  "digitsValue acc [] = acc"
| "digitsValue acc (c # s) = digitsValue (acc * 10 + (int (of_char c) - 48)) s"

text \<open>
  \<open>strconv.Atoi\<close> on a 64-bit platform: an optional sign, then one or more decimal
  digits, and a value that fits \<open>int\<close>; anything else is an error (\<open>None\<close>).
\<close>

definition Atoi :: "string \<Rightarrow> int option" where
  "Atoi s =
     (let neg = (case s of [] \<Rightarrow> False | c # _ \<Rightarrow> c = CHR ''-'');
          body = (case s of [] \<Rightarrow> []
                  | c # r \<Rightarrow> if c = CHR ''-'' \<or> c = CHR ''+'' then r else s)
      in if body = [] \<or> \<not> list_all isDigit body then None
         else (let v = (if neg then - digitsValue 0 body else digitsValue 0 body)
               in if - (2 ^ 63) \<le> v \<and> v < 2 ^ 63 then Some v else None))"

fun natDigits :: "nat \<Rightarrow> string" where
  "natDigits n =
     (if n < 10 then [char_of (48 + n)]
      else natDigits (n div 10) @ [char_of (48 + n mod 10)])"

definition Itoa :: "int \<Rightarrow> string" where
  "Itoa i = (if i < 0 then CHR ''-'' # natDigits (nat (- i)) else natDigits (nat i))"

section \<open>cron.go: field types and bit sets\<close>

definition months :: "string list" where
  "months = [''JAN'', ''FEB'', ''MAR'', ''APR'', ''MAY'', ''JUN'',
             ''JUL'', ''AUG'', ''SEP'', ''OCT'', ''NOV'', ''DEC'']"

definition days :: "string list" where
  "days = [''MON'', ''TUE'', ''WED'', ''THU'', ''FRI'', ''SAT'', ''SUN'']"

record fieldType =
  Field :: cronField
  MinValue :: int
  MaxValue :: int

definition second :: fieldType where
  "second = \<lparr>Field = cronFieldSecond, MinValue = 0, MaxValue = 59\<rparr>"

definition minute :: fieldType where
  "minute = \<lparr>Field = cronFieldMinute, MinValue = 0, MaxValue = 59\<rparr>"

definition hour :: fieldType where
  "hour = \<lparr>Field = cronFieldHour, MinValue = 0, MaxValue = 23\<rparr>"

definition dayOfMonth :: fieldType where
  "dayOfMonth = \<lparr>Field = cronFieldDayOfMonth, MinValue = 1, MaxValue = 31\<rparr>"

definition month :: fieldType where
  "month = \<lparr>Field = cronFieldMonth, MinValue = 1, MaxValue = 12\<rparr>"

definition dayOfWeek :: fieldType where
  "dayOfWeek = \<lparr>Field = cronFieldDayOfWeek, MinValue = 0, MaxValue = 6\<rparr>"

definition cronFieldTypes :: "fieldType list" where
  "cronFieldTypes = [second, minute, hour, dayOfMonth, month, dayOfWeek]"

text \<open>The two fields of \<open>valueRange\<close> carry a suffix: \<open>fieldType\<close> has the same names.\<close>

record valueRange =
  MinValue_vr :: int
  MaxValue_vr :: int

definition newValueRange :: "int \<Rightarrow> int \<Rightarrow> valueRange" where
  "newValueRange mn mx = \<lparr>MinValue_vr = mn, MaxValue_vr = mx\<rparr>"

type_synonym uint64 = "64 word"

record cronFieldBits =
  Typ :: fieldType
  Bits :: uint64

definition newFieldBits :: "fieldType \<Rightarrow> cronFieldBits" where
  "newFieldBits typ = \<lparr>Typ = typ, Bits = 0\<rparr>"

definition maxAttempts :: nat where
  "maxAttempts = 366"

definition mask :: uint64 where
  "mask = 0xFFFFFFFFFFFFFFFF"

record CronExpression =
  fields_ce :: "cronFieldBits list"

definition newCronExpression :: CronExpression where
  "newCronExpression = \<lparr>fields_ce = []\<rparr>"

section \<open>cron.go: parsing\<close>

definition checkValidValue :: "string \<Rightarrow> fieldType \<Rightarrow> int result" where
  "checkValidValue value ft =
     (case Atoi value of
        None \<Rightarrow> Err (ErrNotNumber (Field ft) value)
      | Some r \<Rightarrow>
          if Field ft = cronFieldDayOfWeek \<and> r = 0 then Ok r
          else if MinValue ft \<le> r \<and> r \<le> MaxValue ft then Ok r
          else Err (ErrNotBetween (Field ft) (MinValue ft) (MaxValue ft)))"

definition parseRange :: "string \<Rightarrow> fieldType \<Rightarrow> valueRange result" where
  "parseRange value ft =
     (if value = ''*'' then Ok (newValueRange (MinValue ft) (MaxValue ft))
      else
        (let hyphenPos = Index value ''-'' in
         if hyphenPos = - 1 then
           (case checkValidValue value ft of
              Err e \<Rightarrow> Err e
            | Panic p \<Rightarrow> Panic p
            | Ok r \<Rightarrow> Ok (newValueRange r r))
         else
           (let maxStr = drop (nat (hyphenPos + 1)) value;
                minStr = take (nat hyphenPos) value
            in case checkValidValue minStr ft of
                 Err e \<Rightarrow> Err e
               | Panic p \<Rightarrow> Panic p
               | Ok mn \<Rightarrow>
                   (case checkValidValue maxStr ft of
                      Err e \<Rightarrow> Err e
                    | Panic p \<Rightarrow> Panic p
                    | Ok mx \<Rightarrow>
                        Ok (newValueRange
                              (if Field ft = cronFieldDayOfWeek \<and> mn = 7 then 0 else mn) mx)))))"

text \<open>
  \<open>for index := 0; index < len(list); index++\<close> of \<open>replaceOrdinals\<close>, after the
  \<open>ToUpper\<close>: the name at position \<open>index\<close> is replaced by \<open>Itoa(index + 1)\<close>.
\<close>

fun replaceOrdinalsFrom :: "nat \<Rightarrow> string list \<Rightarrow> string \<Rightarrow> string" where
  "replaceOrdinalsFrom index [] value = value"
| "replaceOrdinalsFrom index (name # rest) value =
     replaceOrdinalsFrom (index + 1) rest (ReplaceAll value name (Itoa (int index + 1)))"

definition replaceOrdinals :: "string \<Rightarrow> string list \<Rightarrow> string" where
  "replaceOrdinals value list = replaceOrdinalsFrom 0 list (ToUpper value)"

text \<open>
  \<open>x << n\<close> on a \<open>uint64\<close> with a count of type \<open>int\<close>: a negative count panics, a count
  of 64 or more gives 0 (as \<open>push_bit\<close> does).
\<close>

definition shiftLeft :: "uint64 \<Rightarrow> int \<Rightarrow> uint64 result" where
  "shiftLeft x n = (if n < 0 then Panic RuntimeNegativeShift else Ok (push_bit (nat n) x))"

text \<open>
  The loop \<open>for index := MinValue; index <= MaxValue; index += step\<close>, on Go's 64-bit
  \<open>int\<close>: \<open>index\<close>, \<open>MaxValue\<close> and \<open>step\<close> are words read as signed, and \<open>index += step\<close>
  wraps around. The loop stands under \<open>if step > 1\<close>; the guard is repeated in the
  loop condition, which makes the recursion well-founded for every argument.
\<close>

function stepLoop :: "64 word \<Rightarrow> 64 word \<Rightarrow> 64 word \<Rightarrow> uint64 \<Rightarrow> uint64 result" where
  "stepLoop index maxValue step bits =
     (if 1 <s step \<and> index \<le>s maxValue then
        (case shiftLeft 1 (sint index) of
           Ok b \<Rightarrow> stepLoop (index + step) maxValue step (bits OR b)
         | Err e \<Rightarrow> Err e
         | Panic p \<Rightarrow> Panic p)
      else Ok bits)"
  by pat_completeness auto
termination
proof (relation "measure (\<lambda>(index, maxValue, step, bits).
         if sint index < 0 then 0 else nat (sint maxValue - sint index + 1) + 1)", goal_cases)
  case 1
  show ?case by simp
next
  case (2 index maxValue step bits b)
  then have i: "0 \<le> sint index" and s: "1 < sint step" and m: "sint index \<le> sint maxValue"
    by (auto simp: shiftLeft_def word_sle_eq word_sless_alt split: if_splits)
  have li: "sint index < 2 ^ 63" and ls: "sint step < 2 ^ 63"
    using sint_lt [of index] sint_lt [of step] by simp_all
  have e: "sint (index + step) = signed_take_bit 63 (sint index + sint step)"
    by (simp add: sint_word_ariths)
  have "sint (index + step) < 0 \<or> sint (index + step) = sint index + sint step"
  proof (cases "sint index + sint step < 2 ^ 63")
    case True
    then have "signed_take_bit 63 (sint index + sint step) = sint index + sint step"
      using i s by (simp add: signed_take_bit_int_eq_self_iff)
    then show ?thesis using e by simp
  next
    case False
    have "(sint index + sint step) div 2 ^ 63 = 1"
      using False li ls by (simp add: div_pos_pos_trivial int_div_pos_eq)
    then have "bit (sint index + sint step) 63"
      by (simp add: bit_iff_odd)
    then have "signed_take_bit 63 (sint index + sint step) < 0"
      by (simp add: signed_take_bit_negative_iff)
    then show ?thesis using e by simp
  qed
  then show ?case
    using i s m by auto
qed

declare stepLoop.simps [simp del]

text \<open>
  The body of \<open>for _, field := range fields\<close> in \<open>parseField\<close>: one comma-separated
  token, given the bits set so far, gives the new bits. \<open>step\<close> starts at \<open>-1\<close> and is
  read from the token only when it has a slash.
\<close>

definition parseFieldToken :: "fieldType \<Rightarrow> uint64 \<Rightarrow> string \<Rightarrow> uint64 result" where
  "parseFieldToken ft bits field =
     (let slashPos = Index field ''/'' in
      case (if slashPos \<noteq> - 1 then
              (let rangeStr = take (nat slashPos) field in
               case parseRange rangeStr ft of
                 Err e \<Rightarrow> Err e
               | Panic p \<Rightarrow> Panic p
               | Ok r \<Rightarrow>
                   (let vr = (if Index rangeStr ''-'' = - 1
                              then newValueRange (MinValue_vr r) (MaxValue ft) else r);
                        stepStr = drop (nat (slashPos + 1)) field
                    in case Atoi stepStr of
                         None \<Rightarrow> Panic (PanicError stepStr)
                       | Some step \<Rightarrow>
                           if step \<le> 0 then Panic (PanicMessage ''step must be 1 or higher'')
                           else Ok (step, vr)))
            else
              (case parseRange field ft of
                 Err e \<Rightarrow> Err e
               | Panic p \<Rightarrow> Panic p
               | Ok r \<Rightarrow> Ok (- 1, r)))
      of
        Err e \<Rightarrow> Err e
      | Panic p \<Rightarrow> Panic p
      | Ok (step, vr) \<Rightarrow>
          if step > 1 then
            stepLoop (word_of_int (MinValue_vr vr)) (word_of_int (MaxValue_vr vr))
              (word_of_int step) bits
          else if MinValue_vr vr = MaxValue_vr vr then
            (case shiftLeft 1 (MinValue_vr vr) of
               Ok b \<Rightarrow> Ok (bits OR b)
             | Err e \<Rightarrow> Err e
             | Panic p \<Rightarrow> Panic p)
          else
            (case shiftLeft (- 1) (MaxValue_vr vr + 1) of
               Err e \<Rightarrow> Err e
             | Panic p \<Rightarrow> Panic p
             | Ok hi \<Rightarrow>
                 (case shiftLeft (- 1) (MinValue_vr vr) of
                    Err e \<Rightarrow> Err e
                  | Panic p \<Rightarrow> Panic p
                  | Ok lo \<Rightarrow> Ok (NOT hi AND lo))))"

fun parseFieldTokens :: "fieldType \<Rightarrow> uint64 \<Rightarrow> string list \<Rightarrow> uint64 result" where
  "parseFieldTokens ft bits [] = Ok bits"
| "parseFieldTokens ft bits (field # rest) =
     (case parseFieldToken ft bits field of
        Ok b \<Rightarrow> parseFieldTokens ft b rest
      | Err e \<Rightarrow> Err e
      | Panic p \<Rightarrow> Panic p)"

text \<open>The string that \<open>parseField\<close> splits at the commas: names replaced by ordinals.\<close>

definition fieldText :: "string \<Rightarrow> fieldType \<Rightarrow> string" where
  "fieldText value ft =
     (if Field ft = cronFieldMonth then replaceOrdinals value months
      else if Field ft = cronFieldDayOfWeek then replaceOrdinals value days
      else value)"

definition parseField :: "string \<Rightarrow> fieldType \<Rightarrow> cronFieldBits result" where
  "parseField value ft =
     (if length value = 0 then Err ErrEmptyValue
      else
        (case parseFieldTokens ft (Bits (newFieldBits ft)) (Split (fieldText value ft) '','') of
           Ok b \<Rightarrow> Ok ((newFieldBits ft)\<lparr>Bits := b\<rparr>)
         | Err e \<Rightarrow> Err e
         | Panic p \<Rightarrow> Panic p))"

text \<open>
  \<open>for index, cronFieldType := range cronFieldTypes\<close> of \<open>ParseCronExpression\<close>, which
  runs once there are exactly six fields: the field at \<open>index\<close> is parsed with the type
  at \<open>index\<close> and appended.
\<close>

fun parseFields :: "CronExpression \<Rightarrow> (string \<times> fieldType) list \<Rightarrow> CronExpression result" where
  "parseFields cronExpression [] = Ok cronExpression"
| "parseFields cronExpression ((field, cronFieldType) # rest) =
     (case parseField field cronFieldType of
        Err e \<Rightarrow> Err e
      | Panic p \<Rightarrow> Panic p
      | Ok v \<Rightarrow>
          parseFields (cronExpression\<lparr>fields_ce := fields_ce cronExpression @ [v]\<rparr>) rest)"

definition ParseCronExpression :: "string \<Rightarrow> CronExpression result" where
  "ParseCronExpression expression =
     (if length expression = 0 then Err ErrEmptyExpression
      else
        (let fs = Fields expression in
         if length fs \<noteq> 6 then Err (ErrFieldCount (length fs) expression)
         else parseFields newCronExpression (zip fs cronFieldTypes)))"

section \<open>Instants and the calendar\<close>

text \<open>
  A \<open>time.Time\<close> is modelled as the instant it denotes: the number of nanoseconds since
  the zero \<open>Time\<close> (January 1 of year 1, 00:00:00 UTC), an unbounded integer, read in
  UTC. \<open>Before\<close>, \<open>After\<close> and \<open>Equal\<close> compare instants; \<open>IsZero\<close> holds of the zero
  instant. A \<open>time.Duration\<close> is a number of nanoseconds. The calendar is the proleptic
  Gregorian one that package \<open>time\<close> computes with; \<open>AddDate\<close> normalises an overflowing
  month or day as \<open>time.Date\<close> does.
\<close>

type_synonym Time = int
type_synonym Duration = int

definition zeroTime :: Time where
  "zeroTime = 0"

definition IsZero :: "Time \<Rightarrow> bool" where
  "IsZero t = (t = zeroTime)"

definition Equal :: "Time \<Rightarrow> Time \<Rightarrow> bool" where
  "Equal t u = (t = u)"

definition After :: "Time \<Rightarrow> Time \<Rightarrow> bool" where
  "After t u = (t > u)"

definition Before :: "Time \<Rightarrow> Time \<Rightarrow> bool" where
  "Before t u = (t < u)"

definition Nanosecond_d :: Duration where
  "Nanosecond_d = 1"

definition Second_d :: Duration where
  "Second_d = 1000000000"

definition Minute_d :: Duration where
  "Minute_d = 60 * Second_d"

definition Hour_d :: Duration where
  "Hour_d = 60 * Minute_d"

definition Add :: "Time \<Rightarrow> Duration \<Rightarrow> Time" where
  "Add t d = t + d"

definition Sub :: "Time \<Rightarrow> Time \<Rightarrow> Duration" where
  "Sub t u = t - u"

definition Nanosecond :: "Time \<Rightarrow> int" where
  "Nanosecond t = t mod Second_d"

definition Second :: "Time \<Rightarrow> nat" where
  "Second t = nat ((t div Second_d) mod 60)"

definition Minute :: "Time \<Rightarrow> nat" where
  "Minute t = nat ((t div Minute_d) mod 60)"

definition Hour :: "Time \<Rightarrow> nat" where
  "Hour t = nat ((t div Hour_d) mod 24)"

definition absDay :: "Time \<Rightarrow> int" where
  "absDay t = t div (24 * Hour_d)"

text \<open>Day 0 is January 1 of year 1, a Monday; \<open>time.Sunday\<close> is 0.\<close>

definition Weekday :: "Time \<Rightarrow> nat" where
  "Weekday t = nat ((absDay t + 1) mod 7)"

text \<open>Year, month and day of a day number, and back; years are counted from March.\<close>

definition civilFromDays :: "int \<Rightarrow> int \<times> int \<times> int" where
  "civilFromDays n =
     (let z = n + 306;
          era = z div 146097;
          doe = z mod 146097;
          yoe = (doe - doe div 1460 + doe div 36524 - doe div 146096) div 365;
          y = yoe + era * 400;
          doy = doe - (365 * yoe + yoe div 4 - yoe div 100);
          mp = (5 * doy + 2) div 153;
          d = doy - (153 * mp + 2) div 5 + 1;
          m = (if mp < 10 then mp + 3 else mp - 9)
      in (if m \<le> 2 then y + 1 else y, m, d))"

definition daysFromCivil :: "int \<Rightarrow> int \<Rightarrow> int \<Rightarrow> int" where
  "daysFromCivil y m d =
     (let y' = (if m \<le> 2 then y - 1 else y);
          era = y' div 400;
          yoe = y' mod 400;
          doy = (153 * (if m > 2 then m - 3 else m + 9) + 2) div 5 + d - 1;
          doe = yoe * 365 + yoe div 4 - yoe div 100 + doy
      in era * 146097 + doe - 306)"

definition Month :: "Time \<Rightarrow> nat" where
  "Month t = nat (fst (snd (civilFromDays (absDay t))))"

definition Day :: "Time \<Rightarrow> nat" where
  "Day t = nat (snd (snd (civilFromDays (absDay t))))"

definition AddDate :: "Time \<Rightarrow> int \<Rightarrow> int \<Rightarrow> int \<Rightarrow> Time" where
  "AddDate t years months' days' =
     (case civilFromDays (absDay t) of
        (y, m, d) \<Rightarrow>
          (let m0 = m - 1 + months'
           in (daysFromCivil (y + years + m0 div 12) (m0 mod 12 + 1) 1 + (d + days' - 1))
                * (24 * Hour_d)
              + t mod (24 * Hour_d)))"

section \<open>cron.go: the next instant\<close>

definition getTimeValue :: "Time \<Rightarrow> cronField \<Rightarrow> nat" where
  "getTimeValue t field =
     (case field of
        cronFieldSecond \<Rightarrow> Second t
      | cronFieldMinute \<Rightarrow> Minute t
      | cronFieldHour \<Rightarrow> Hour t
      | cronFieldDayOfMonth \<Rightarrow> Day t
      | cronFieldMonth \<Rightarrow> Month t
      | cronFieldDayOfWeek \<Rightarrow> Weekday t)"

definition addTime :: "Time \<Rightarrow> cronField \<Rightarrow> int \<Rightarrow> Time" where
  "addTime t field value =
     (case field of
        cronFieldSecond \<Rightarrow> Add t (value * Second_d)
      | cronFieldMinute \<Rightarrow> Add t (value * Minute_d)
      | cronFieldHour \<Rightarrow> Add t (value * Hour_d)
      | cronFieldDayOfMonth \<Rightarrow> AddDate t 0 0 value
      | cronFieldMonth \<Rightarrow> AddDate t 0 value 0
      | cronFieldDayOfWeek \<Rightarrow> AddDate t 0 0 value)"

definition TrailingZeros64 :: "uint64 \<Rightarrow> nat" where
  "TrailingZeros64 x = (if x = 0 then 64 else length (takeWhile (\<lambda>i. \<not> bit x i) [0..<64]))"

text \<open>
  \<open>setNextBit\<close> is called with a calendar value or with the constant 0: the index is a
  natural number, so the shift cannot panic.
\<close>

definition setNextBit :: "uint64 \<Rightarrow> nat \<Rightarrow> int" where
  "setNextBit bitsValue index =
     (let result = bitsValue AND push_bit index mask
      in if result \<noteq> 0 then int (TrailingZeros64 result) else - 1)"

text \<open>The loop \<open>for ; current != next && count < maxAttempts; count++ { }\<close>: its final count.\<close>

function countLoop :: "nat \<Rightarrow> int \<Rightarrow> nat \<Rightarrow> nat" where
  "countLoop current nxt count =
     (if int current \<noteq> nxt \<and> count < maxAttempts then countLoop current nxt (count + 1)
      else count)"
  by pat_completeness auto
termination
  by (relation "measure (\<lambda>(current, nxt, count). maxAttempts - count)") auto

declare countLoop.simps [simp del]

text \<open>
  \<open>CronExpression.next\<close>: the loop over the fields, on the rest of the field list. The
  shifted \<open>temp\<close> is read once, for the second \<open>current\<close>; every return gives \<open>t\<close> or
  the zero \<open>Time\<close>.
\<close>

primrec nextFrom :: "cronFieldBits list \<Rightarrow> Time \<Rightarrow> Time" where
  "nextFrom [] t = zeroTime"
| "nextFrom (field # rest) t =
     (let current = getTimeValue t (Field (Typ field));
          nxt0 = setNextBit (Bits field) current;
          temp = (if nxt0 = - 1
                  then addTime t (Field (Typ field)) (MaxValue (Typ field) - int current + 1)
                  else t);
          nxt = (if nxt0 = - 1 then setNextBit (Bits field) 0 else nxt0)
      in if nxt = int current then t
         else if countLoop (getTimeValue temp (Field (Typ field))) nxt 0 \<ge> maxAttempts
              then zeroTime
              else nextFrom rest t)"

definition next_ce :: "CronExpression \<Rightarrow> Time \<Rightarrow> Time" where
  "next_ce expression t = nextFrom (fields_ce expression) t"

function nextTimeLoop :: "CronExpression \<Rightarrow> nat \<Rightarrow> Time \<Rightarrow> Time" where
  "nextTimeLoop expression i t =
     (if i < maxAttempts then
        (let result = next_ce expression t
         in if IsZero result \<or> Equal result t then result
            else nextTimeLoop expression (i + 1) result)
      else zeroTime)"
  by pat_completeness auto
termination
  by (relation "measure (\<lambda>(expression, i, t). maxAttempts - i)") auto

declare nextTimeLoop.simps [simp del]

definition NextTime :: "CronExpression \<Rightarrow> Time \<Rightarrow> Time" where
  "NextTime expression t =
     nextTimeLoop expression 0 (Add t (1 * Second_d - Nanosecond t * Nanosecond_d))"

text \<open>
  An instant satisfies an expression when each field's bit set has the bit of the
  instant's value for that field.
\<close>

definition satisfiesFields :: "CronExpression \<Rightarrow> Time \<Rightarrow> bool" where
  "satisfiesFields expression t =
     list_all (\<lambda>field. bit (Bits field) (getTimeValue t (Field (Typ field))))
       (fields_ce expression)"

section \<open>task.go\<close>

text \<open>
  A \<open>*ScheduledTask\<close> is an address; the structs live in a heap, a function from
  addresses to structs, so that the queue, a caller's handle and a worker can hold the
  same task and see each other's writes to \<open>triggerTime\<close>. Address 0 is \<open>nil\<close>. A \<open>Task\<close>
  is a function value: \<open>None\<close> is the nil function, \<open>Some b\<close> a body \<open>b\<close> that the model
  does not look into. Field \<open>id\<close> has a suffix, \<open>id\<close> being the identity function of HOL.
\<close>

type_synonym addr = nat

definition nilPtr :: addr where
  "nilPtr = 0"

record 'b ScheduledTask =
  id_st :: int
  task :: "'b option"
  triggerTime :: Time
  period :: Duration
  fixedRate :: bool

text \<open>The composite literal of \<open>NewScheduledTask\<close> names four fields; \<open>id\<close> keeps its zero value.\<close>

definition NewScheduledTask :: "'b option \<Rightarrow> Time \<Rightarrow> Duration \<Rightarrow> bool \<Rightarrow> 'b ScheduledTask" where
  "NewScheduledTask task' triggerTime' period' fixedRate' =
     \<lparr>id_st = 0, task = task', triggerTime = triggerTime',
      period = (if period' < 0 then 0 else period'), fixedRate = fixedRate'\<rparr>"

text \<open>\<open>GetDelay\<close> reads the clock: \<open>now\<close> is the value of \<open>time.Now()\<close> at the call.\<close>

definition GetDelay :: "'b ScheduledTask \<Rightarrow> Time \<Rightarrow> Duration" where
  "GetDelay scheduledTask now = Sub (triggerTime scheduledTask) now"

definition IsPeriodic :: "'b ScheduledTask \<Rightarrow> bool" where
  "IsPeriodic scheduledTask = (period scheduledTask \<noteq> 0)"

definition IsFixedRate :: "'b ScheduledTask \<Rightarrow> bool" where
  "IsFixedRate scheduledTask = fixedRate scheduledTask"

text \<open>
  A slice is its backing array, from the slice's first element to its capacity, and its
  length. Removing an element and appending within the capacity write into the array
  the slice already has.
\<close>

record 'a slice =
  array_s :: "'a list"
  len_s :: nat

type_synonym ScheduledTaskQueue = "addr slice"

definition Len :: "ScheduledTaskQueue \<Rightarrow> nat" where
  "Len queue = len_s queue"

definition IsEmpty :: "ScheduledTaskQueue \<Rightarrow> bool" where
  "IsEmpty queue = (Len queue = 0)"

text \<open>
  \<open>sort.Sort\<close> orders the \<open>Len\<close> elements by \<open>Less\<close>, that is by trigger instant. On a
  queue of at most twelve tasks it is an insertion sort, which keeps tasks of equal
  instant in their order, as \<open>sort_key\<close> does.
\<close>

definition SorByTriggerTime :: "(addr \<Rightarrow> 'b ScheduledTask) \<Rightarrow> ScheduledTaskQueue \<Rightarrow> ScheduledTaskQueue" where
  "SorByTriggerTime h queue =
     queue\<lparr>array_s := sort_key (\<lambda>p. triggerTime (h p)) (take (len_s queue) (array_s queue))
                        @ drop (len_s queue) (array_s queue)\<rparr>"

text \<open>
  The three parts of \<open>ReschedulableTask\<close>: \<open>executor\<close> is an interface value and
  \<open>trigger\<close> a value of type \<open>Trigger\<close>, which this package declares outside these files;
  \<open>None\<close> is nil, and the receiver of \<open>Schedule\<close> may be a nil pointer.
\<close>

record ('e, 't) ReschedulableTask =
  executor :: "'e option"
  trigger :: "'t option"

definition NewReschedulableTask :: "'e option \<Rightarrow> 't option \<Rightarrow> ('e, 't) ReschedulableTask result" where
  "NewReschedulableTask executor' trigger' =
     (if executor' = None then Panic (PanicMessage ''executor cannot be nil'')
      else if trigger' \<noteq> None then Panic (PanicMessage ''trigger cannot be nil'')
      else Ok \<lparr>executor = executor', trigger = trigger'\<rparr>)"

definition Schedule_rt :: "('e, 't) ReschedulableTask option \<Rightarrow> addr" where
  "Schedule_rt task' = nilPtr"

section \<open>executor.go\<close>

text \<open>
  The state of one executor and of the goroutines around it: the heap of tasks, the
  fields \<open>nextSequence\<close> and \<open>taskQueue\<close>, the variable \<open>lastClock\<close> of \<open>run\<close>, the
  goroutines blocked in a send on \<open>newTaskChannel\<close> (\<open>senders\<close>: callers inside
  \<open>addNewTask\<close> and workers inside their deferred function), and the workers whose task
  body has not returned (\<open>workers\<close>). \<open>started\<close> records every call of \<open>startTask\<close>, in
  order; it is the history of dispatches, not a variable of the program.
\<close>

record 'b system =
  heap :: "addr \<Rightarrow> 'b ScheduledTask"
  allocated :: nat
  nextSequence :: int
  taskQueue :: ScheduledTaskQueue
  lastClock :: Time
  senders :: "addr list"
  workers :: "addr list"
  started :: "addr list"

text \<open>\<open>NewScheduledTaskExecutor\<close>, and \<open>run\<close> up to its loop; \<open>now\<close> is the clock \<open>run\<close> reads.\<close>

definition NewScheduledTaskExecutor :: "Time \<Rightarrow> 'b system" where
  "NewScheduledTaskExecutor now =
     \<lparr>heap = (\<lambda>p. \<lparr>id_st = 0, task = None, triggerTime = zeroTime, period = 0,
                    fixedRate = False\<rparr>),
      allocated = 0, nextSequence = 0, taskQueue = \<lparr>array_s = [], len_s = 0\<rparr>,
      lastClock = now, senders = [], workers = [], started = []\<rparr>"

definition calculateTriggerTime :: "Duration \<Rightarrow> Time \<Rightarrow> Time" where
  "calculateTriggerTime delay now = Add now (if delay < 0 then 0 else delay)"

text \<open>
  \<open>addNewTask\<close> on a fresh task: the struct gets the next address and the caller blocks
  in the send until \<open>run\<close> receives.
\<close>

definition addNewTask :: "'b ScheduledTask \<Rightarrow> 'b system \<Rightarrow> addr \<times> 'b system" where
  "addNewTask scheduledTask s =
     (let p = allocated s + 1
      in (p, s\<lparr>heap := (heap s)(p := scheduledTask), allocated := p,
               senders := senders s @ [p]\<rparr>))"

definition Schedule :: "'b option \<Rightarrow> Duration \<Rightarrow> Time \<Rightarrow> 'b system \<Rightarrow> (addr \<times> 'b system) result" where
  "Schedule task' delay now s =
     (if task' = None then Panic (PanicMessage ''task cannot be nil'')
      else Ok (addNewTask (NewScheduledTask task' (calculateTriggerTime delay now) 0 False) s))"

definition ScheduleWithFixedDelay ::
  "'b option \<Rightarrow> Duration \<Rightarrow> Duration \<Rightarrow> Time \<Rightarrow> 'b system \<Rightarrow> (addr \<times> 'b system) result" where
  "ScheduleWithFixedDelay task' initialDelay delay now s =
     (if task' = None then Panic (PanicMessage ''task cannot be nil'')
      else Ok (addNewTask
                 (NewScheduledTask task' (calculateTriggerTime initialDelay now) delay False) s))"

definition ScheduleAtWithRate ::
  "'b option \<Rightarrow> Duration \<Rightarrow> Duration \<Rightarrow> Time \<Rightarrow> 'b system \<Rightarrow> (addr \<times> 'b system) result" where
  "ScheduleAtWithRate task' initialDelay period' now s =
     (if task' = None then Panic (PanicMessage ''task cannot be nil'')
      else Ok (addNewTask
                 (NewScheduledTask task' (calculateTriggerTime initialDelay now) period' True) s))"

text \<open>
  \<open>append(queue[:i], queue[i+1:]...)\<close>: \<open>queue[:i]\<close> needs \<open>0 <= i <= cap\<close> and
  \<open>queue[i+1:]\<close> needs \<open>i+1 <= len\<close>; the elements after \<open>i\<close> move one place down inside
  the array, whose last used place keeps its old element.
\<close>

definition removeAt :: "'a slice \<Rightarrow> int \<Rightarrow> 'a slice result" where
  "removeAt queue i =
     (if i < 0 \<or> i > int (length (array_s queue)) then Panic RuntimeSliceBounds
      else if i + 1 > int (len_s queue) then Panic RuntimeSliceBounds
      else Ok \<lparr>array_s = take (nat i) (array_s queue)
                          @ take (len_s queue - (nat i + 1)) (drop (nat i + 1) (array_s queue))
                          @ drop (len_s queue - 1) (array_s queue),
               len_s = len_s queue - 1\<rparr>)"

text \<open>
  \<open>append(queue, x)\<close>: in place while the capacity lasts; otherwise into a new array,
  of capacity 1 after 0 and of twice the capacity after that (the rule of the runtime
  for slices of fewer than 256 elements), the new places holding nil.
\<close>

definition append_s :: "addr slice \<Rightarrow> addr \<Rightarrow> addr slice" where
  "append_s queue x =
     (if len_s queue < length (array_s queue)
      then \<lparr>array_s = (array_s queue)[len_s queue := x], len_s = len_s queue + 1\<rparr>
      else (let cap = (if length (array_s queue) = 0 then 1 else 2 * length (array_s queue))
            in \<lparr>array_s = take (len_s queue) (array_s queue) @ x
                            # replicate (cap - len_s queue - 1) nilPtr,
                len_s = len_s queue + 1\<rparr>))"

text \<open>
  The element at \<open>index\<close> of a \<open>range\<close> over the queue and the struct it points to. The
  index is below the capacity, which is the length of the array.
\<close>

definition loadTask :: "(addr \<Rightarrow> 'b ScheduledTask) \<Rightarrow> ScheduledTaskQueue \<Rightarrow> nat
    \<Rightarrow> (addr \<times> 'b ScheduledTask) result" where
  "loadTask h queue index =
     (if index \<ge> length (array_s queue) then Panic RuntimeIndexOutOfRange
      else if array_s queue ! index = nilPtr then Panic RuntimeNilDereference
      else Ok (array_s queue ! index, h (array_s queue ! index)))"

definition startTask :: "addr \<Rightarrow> 'b system \<Rightarrow> 'b system" where
  "startTask p s = s\<lparr>workers := workers s @ [p], started := started s @ [p]\<rparr>"

text \<open>
  The timer case of \<open>run\<close>: \<open>for index, scheduledTask := range executor.taskQueue\<close>.
  The range takes the length once, so the indices are those below the length at the
  start; the elements are read from the array, which a removal inside the loop has
  already changed. \<open>continue\<close> goes to the rest of the indices, \<open>break\<close> leaves.
\<close>

primrec timerScan :: "Time \<Rightarrow> nat list \<Rightarrow> 'b system \<Rightarrow> 'b system result" where
  "timerScan clock [] s = Ok s"
| "timerScan clock (index # rest) s =
     (case loadTask (heap s) (taskQueue s) index of
        Err e \<Rightarrow> Err e
      | Panic x \<Rightarrow> Panic x
      | Ok (p, scheduledTask) \<Rightarrow>
          if After (lastClock s) (triggerTime scheduledTask) then timerScan clock rest s
          else if After (triggerTime scheduledTask) clock \<or> IsZero (triggerTime scheduledTask)
          then Ok s
          else
            (let s1 = (if IsFixedRate scheduledTask
                       then s\<lparr>heap := (heap s)(p := scheduledTask
                                \<lparr>triggerTime := Add (triggerTime scheduledTask)
                                                     (period scheduledTask)\<rparr>)\<rparr>
                       else s)
             in if \<not> IsPeriodic (heap s1 p) \<or> \<not> IsFixedRate (heap s1 p) then
                  (case removeAt (taskQueue s1) (int index) of
                     Err e \<Rightarrow> Err e
                   | Panic x \<Rightarrow> Panic x
                   | Ok q \<Rightarrow> timerScan clock rest (startTask p (s1\<lparr>taskQueue := q\<rparr>)))
                else timerScan clock rest (startTask p s1)))"

definition onTimer :: "Time \<Rightarrow> 'b system \<Rightarrow> 'b system result" where
  "onTimer clock s =
     (case timerScan clock [0..<len_s (taskQueue s)] s of
        Err e \<Rightarrow> Err e
      | Panic x \<Rightarrow> Panic x
      | Ok s' \<Rightarrow> Ok (s'\<lparr>taskQueue := SorByTriggerTime (heap s') (taskQueue s'),
                        lastClock := clock\<rparr>))"

text \<open>The new-task case: the task of one blocked sender is appended and the queue sorted.\<close>

definition onNewTask :: "addr \<Rightarrow> 'b system \<Rightarrow> 'b system result" where
  "onNewTask newScheduledTask s =
     Ok (s\<lparr>taskQueue := SorByTriggerTime (heap s) (append_s (taskQueue s) newScheduledTask),
           senders := remove1 newScheduledTask (senders s)\<rparr>)"

text \<open>
  The remove case: \<open>taskIndex\<close> starts at \<open>-1\<close> and becomes the first index whose task
  has the \<open>id\<close> of the task received; it is then used in the slice expressions as it is.
\<close>

primrec findTask :: "(addr \<Rightarrow> 'b ScheduledTask) \<Rightarrow> ScheduledTaskQueue \<Rightarrow> int \<Rightarrow> nat list
    \<Rightarrow> int result" where
  "findTask h queue taskId [] = Ok (- 1)"
| "findTask h queue taskId (index # rest) =
     (case loadTask h queue index of
        Err e \<Rightarrow> Err e
      | Panic x \<Rightarrow> Panic x
      | Ok (p, scheduledTask) \<Rightarrow>
          if id_st scheduledTask = taskId then Ok (int index)
          else findTask h queue taskId rest)"

definition onRemoveTask :: "addr \<Rightarrow> 'b system \<Rightarrow> 'b system result" where
  "onRemoveTask task' s =
     (if task' = nilPtr then Panic RuntimeNilDereference
      else
        (case findTask (heap s) (taskQueue s) (id_st (heap s task'))
                [0..<len_s (taskQueue s)] of
           Err e \<Rightarrow> Err e
         | Panic x \<Rightarrow> Panic x
         | Ok taskIndex \<Rightarrow>
             (case removeAt (taskQueue s) taskIndex of
                Err e \<Rightarrow> Err e
              | Panic x \<Rightarrow> Panic x
              | Ok q \<Rightarrow> Ok (s\<lparr>taskQueue := q\<rparr>))))"

text \<open>
  The goroutine of \<open>startTask\<close>, from the return of the task body on: the deferred
  function writes the new trigger instant (\<open>now\<close> is the clock it reads) and, unless the
  task is fixed-rate, blocks in the send of the task on \<open>newTaskChannel\<close>. Calling a nil
  body panics.
\<close>

definition workerReturn :: "addr \<Rightarrow> Time \<Rightarrow> 'b system \<Rightarrow> 'b system result" where
  "workerReturn p now s =
     (if task (heap s p) = None then Panic RuntimeNilCall
      else
        (let scheduledTask = (heap s p)
               \<lparr>triggerTime := calculateTriggerTime (period (heap s p)) now\<rparr>
         in Ok (s\<lparr>heap := (heap s)(p := scheduledTask),
                  workers := remove1 p (workers s),
                  senders := (if \<not> IsFixedRate scheduledTask then senders s @ [p]
                              else senders s)\<rparr>)))"

text \<open>
  What can happen next, one event at a time: a call of the API by some goroutine, one
  turn of the loop of \<open>run\<close> (the timer fires with the clock it carries, a task is
  received from a blocked sender, a task is received on \<open>removeTaskChannel\<close>), or the
  return of the body of a running worker. \<open>step\<close> is \<open>None\<close> where the event cannot
  happen: the timer is stopped while the queue is empty, a receive needs its sender, and
  only a running worker returns. \<open>exec\<close> runs a sequence of events up to the first panic.
\<close>

datatype 'b event =
  CallSchedule "'b option" Duration Time
  | CallScheduleWithFixedDelay "'b option" Duration Duration Time
  | CallScheduleAtWithRate "'b option" Duration Duration Time
  | TimerFires Time
  | NewTaskReceived addr
  | RemoveTaskReceived addr
  | WorkerReturns addr Time

definition afterCall :: "(addr \<times> 'b system) result \<Rightarrow> 'b system result" where
  "afterCall r = (case r of Ok (p, s) \<Rightarrow> Ok s | Err e \<Rightarrow> Err e | Panic x \<Rightarrow> Panic x)"

fun step :: "'b event \<Rightarrow> 'b system \<Rightarrow> 'b system result option" where
  "step (CallSchedule t delay now) s = Some (afterCall (Schedule t delay now s))"
| "step (CallScheduleWithFixedDelay t initialDelay delay now) s =
     Some (afterCall (ScheduleWithFixedDelay t initialDelay delay now s))"
| "step (CallScheduleAtWithRate t initialDelay p now) s =
     Some (afterCall (ScheduleAtWithRate t initialDelay p now s))"
| "step (TimerFires clock) s =
     (if IsEmpty (taskQueue s) then None else Some (onTimer clock s))"
| "step (NewTaskReceived p) s =
     (if p \<in> set (senders s) then Some (onNewTask p s) else None)"
| "step (RemoveTaskReceived p) s = Some (onRemoveTask p s)"
| "step (WorkerReturns p now) s =
     (if p \<in> set (workers s) then Some (workerReturn p now s) else None)"

fun exec :: "'b event list \<Rightarrow> 'b system \<Rightarrow> 'b system result option" where
  "exec [] s = Some (Ok s)"
| "exec (e # es) s =
     (case step e s of
        None \<Rightarrow> None
      | Some (Ok s') \<Rightarrow> exec es s'
      | Some (Err x) \<Rightarrow> Some (Err x)
      | Some (Panic x) \<Rightarrow> Some (Panic x))"

text \<open>The tasks in the queue, first to last.\<close>

definition queued :: "'b system \<Rightarrow> addr list" where
  "queued s = take (len_s (taskQueue s)) (array_s (taskQueue s))"

section \<open>Parsing: field count, day of week, steps\<close>

text \<open>
  C9. \<open>ParseCronExpression\<close> returns an error when the expression is empty, and when
  it does not split into exactly six white-space separated fields; the error then carries
  the number of fields found and the expression. In particular the four fields of
  \<open>* * * *\<close> give that error, with the count 4.
\<close>

theorem parse_wrong_field_count:
  "(expression = [] \<longrightarrow> ParseCronExpression expression = Err ErrEmptyExpression)
   \<and> (expression \<noteq> [] \<and> length (Fields expression) \<noteq> 6 \<longrightarrow>
        ParseCronExpression expression
          = Err (ErrFieldCount (length (Fields expression)) expression))
   \<and> ParseCronExpression ''* * * *'' = Err (ErrFieldCount 4 ''* * * *'')"
proof -
  have four: "Fields ''* * * *'' = [''*'', ''*'', ''*'', ''*'']"
    by (simp add: Fields_def isSpace_def)
  show ?thesis
    by (simp add: ParseCronExpression_def Let_def four)
qed

theorem parse_wrong_field_count_witness:
  "ParseCronExpression [] = Err ErrEmptyExpression
   \<and> ''1 2 3 4 5 6 7'' \<noteq> [] \<and> length (Fields ''1 2 3 4 5 6 7'') \<noteq> 6
   \<and> ParseCronExpression ''1 2 3 4 5 6 7'' = Err (ErrFieldCount 7 ''1 2 3 4 5 6 7'')"
proof -
  have seven: "length (Fields ''1 2 3 4 5 6 7'') = 7"
    by (simp add: Fields_def isSpace_def)
  show ?thesis
    using parse_wrong_field_count [of "[]"] parse_wrong_field_count [of "''1 2 3 4 5 6 7''"]
      seven
    by simp
qed

text \<open>
  C6. The claim: \<open>7\<close> in the day-of-week field parses, to the same bit set as \<open>0\<close>.
  The code: \<open>checkValidValue\<close> accepts 0 to 6 for that field, so \<open>7\<close> is refused with
  the out-of-range error, and so is \<open>SUN\<close>, which \<open>replaceOrdinals\<close> turns into \<open>7\<close>;
  \<open>0\<close> parses to the set with bit 0. The alias \<open>min == 7\<close> of \<open>parseRange\<close> is never
  reached.
\<close>

theorem dayOfWeek_seven_refused:
  "parseField ''7'' dayOfWeek = Err (ErrNotBetween cronFieldDayOfWeek 0 6)
   \<and> parseField ''SUN'' dayOfWeek = Err (ErrNotBetween cronFieldDayOfWeek 0 6)
   \<and> parseField ''0'' dayOfWeek = Ok \<lparr>Typ = dayOfWeek, Bits = 1\<rparr>
   \<and> ParseCronExpression ''* * * * * 7'' = Err (ErrNotBetween cronFieldDayOfWeek 0 6)"
  by code_simp

text \<open>
  Steps. \<open>0/15\<close> in the minute field sets the bits 0, 15, 30 and 45 and no other.
\<close>

lemma parseField_minute_0_15:
  "parseField ''0/15'' minute = Ok \<lparr>Typ = minute, Bits = 0x200040008001\<rparr>"
  by code_simp

text \<open>
  The step loop on words: as long as \<open>index + step\<close> stays below \<open>2 ^ 63\<close> while
  \<open>index\<close> is within the maximum, the loop ends and sets the bits \<open>index\<close>,
  \<open>index + step\<close>, ... up to the maximum.
\<close>

lemma bit_one_shifted: "bit (2 ^ k :: uint64) n \<longleftrightarrow> n = k \<and> n < 64"
  by (auto simp: bit_exp_iff possible_bit_word)

lemma sint_add_no_overflow:
  fixes x y :: "64 word"
  assumes "0 \<le> sint x" "0 \<le> sint y" "sint x + sint y < 2 ^ 63"
  shows "sint (x + y) = sint x + sint y"
proof -
  have "sint (x + y) = signed_take_bit 63 (sint x + sint y)"
    by (simp add: sint_word_ariths)
  also have "\<dots> = sint x + sint y"
    using assms by (simp add: signed_take_bit_int_eq_self_iff)
  finally show ?thesis .
qed

lemma step_values:
  fixes i s n :: int
  assumes "0 < s"
  shows "(i \<le> n \<and> s dvd n - i) \<longleftrightarrow> (n = i \<or> (i + s \<le> n \<and> s dvd n - (i + s)))"
proof -
  have "n - i = s + (n - (i + s))"
    by simp
  then have shift: "s dvd n - (i + s) \<longleftrightarrow> s dvd n - i"
    using dvd_add_triv_left_iff [of s "n - (i + s)"] by simp
  have none: "\<not> s dvd n - i" if "i < n" "n < i + s"
    using that zdvd_not_zless [of "n - i" s] by simp
  show ?thesis
  proof (cases "n < i + s")
    case True
    then have "i \<le> n \<and> s dvd n - i \<longleftrightarrow> n = i"
      using none [of ] by (cases "i < n") auto
    then show ?thesis using True by auto
  next
    case False
    then have "i \<le> n"
      using assms by simp
    then show ?thesis using False shift by auto
  qed
qed

lemma stepLoop_bits:
  assumes "0 \<le> sint index" "1 < sint stp"
    and "sint index \<le> sint maxValue \<longrightarrow> sint index + sint stp < 2 ^ 63"
    and "sint maxValue + sint stp < 2 ^ 63 \<or> sint maxValue < sint index + sint stp"
    and "sint maxValue < 64"
  shows "\<exists>r. stepLoop index maxValue stp bits = Ok r
           \<and> (\<forall>n. bit r n \<longleftrightarrow>
                  bit bits n
                  \<or> (sint index \<le> int n \<and> int n \<le> sint maxValue
                      \<and> sint stp dvd int n - sint index))"
  using assms
proof (induction index maxValue stp bits rule: stepLoop.induct)
  case (1 index maxValue stp bits)
  show ?case
  proof (cases "index \<le>s maxValue")
    case False
    then have "stepLoop index maxValue stp bits = Ok bits"
      by (subst stepLoop.simps) simp
    moreover have "\<not> sint index \<le> sint maxValue"
      using False by (simp add: word_sle_eq)
    ultimately show ?thesis by auto
  next
    case True
    let ?b = "push_bit (nat (sint index)) (1 :: uint64)"
    have le: "sint index \<le> sint maxValue"
      using True by (simp add: word_sle_eq)
    have guard: "1 <s stp \<and> index \<le>s maxValue"
      using True "1.prems" by (simp add: word_sless_alt)
    have sh: "shiftLeft 1 (sint index) = Ok ?b"
      using "1.prems" by (simp add: shiftLeft_def)
    have nxt: "sint (index + stp) = sint index + sint stp"
      using "1.prems" le by (intro sint_add_no_overflow) auto
    have unfold: "stepLoop index maxValue stp bits
                    = stepLoop (index + stp) maxValue stp (bits OR ?b)"
      using guard sh by (subst stepLoop.simps) simp
    have q1: "0 \<le> sint (index + stp)"
      using "1.prems" nxt by simp
    have q3: "sint (index + stp) \<le> sint maxValue \<longrightarrow> sint (index + stp) + sint stp < 2 ^ 63"
      using "1.prems" nxt by auto
    have q4: "sint maxValue + sint stp < 2 ^ 63 \<or> sint maxValue < sint (index + stp) + sint stp"
      using "1.prems" nxt by auto
    obtain r where r: "stepLoop (index + stp) maxValue stp (bits OR ?b) = Ok r"
      and rb: "\<forall>n. bit r n \<longleftrightarrow>
                  bit (bits OR ?b) n
                  \<or> (sint (index + stp) \<le> int n \<and> int n \<le> sint maxValue
                      \<and> sint stp dvd int n - sint (index + stp))"
      using "1.IH" [OF guard sh q1 "1.prems"(2) q3 q4 "1.prems"(5)] by blast
    have "\<forall>n. bit r n \<longleftrightarrow>
                  bit bits n
                  \<or> (sint index \<le> int n \<and> int n \<le> sint maxValue
                      \<and> sint stp dvd int n - sint index)"
    proof
      fix n
      have b: "bit ?b n \<longleftrightarrow> int n = sint index"
        using "1.prems" le by (auto simp: bit_one_shifted)
      have "bit r n \<longleftrightarrow> bit bits n \<or> int n = sint index
              \<or> (sint index + sint stp \<le> int n \<and> int n \<le> sint maxValue
                  \<and> sint stp dvd int n - (sint index + sint stp))"
        using rb b nxt by (simp add: bit_or_iff)
      then show "bit r n \<longleftrightarrow>
                  bit bits n
                  \<or> (sint index \<le> int n \<and> int n \<le> sint maxValue
                      \<and> sint stp dvd int n - sint index)"
        using step_values [of "sint stp" "sint index" "int n"] "1.prems" le by auto
    qed
    then show ?thesis
      using unfold r by simp
  qed
qed

lemma Index_char_absent: "c \<notin> set xs \<Longrightarrow> Index xs [c] = - 1"
  by (induction xs) auto

lemma Index_char_first: "c \<notin> set xs \<Longrightarrow> Index (xs @ c # ys) [c] = int (length xs)"
  by (induction xs) auto

lemma splitFrom_no_separator:
  "c \<notin> set s \<Longrightarrow> splitFrom [c] cur 0 s = [rev cur @ s]"
  by (induction s arbitrary: cur) auto

lemma replaceFrom_absent: "c \<notin> set s \<Longrightarrow> replaceFrom (c # old) new 0 s = s"
  by (induction s) auto

lemma replaceOrdinalsFrom_absent:
  "\<forall>name \<in> set names. name \<noteq> [] \<and> hd name \<notin> set s
     \<Longrightarrow> replaceOrdinalsFrom k names s = s"
proof (induction names arbitrary: k)
  case Nil
  then show ?case by simp
next
  case (Cons name names)
  then obtain c old where "name = c # old" and "c \<notin> set s"
    by (cases name) auto
  then have "ReplaceAll s name (Itoa (int k + 1)) = s"
    by (simp add: ReplaceAll_def replaceFrom_absent)
  then show ?case using Cons by simp
qed

lemma toUpper_plain:
  assumes "\<forall>c \<in> set s. isDigit c \<or> c = CHR ''/''"
  shows "ToUpper s = s"
proof -
  have "toUpperChar c = c" if "isDigit c \<or> c = CHR ''/''" for c
    using that by (auto simp: toUpperChar_def isDigit_def)
  then show ?thesis
    using assms by (simp add: ToUpper_def map_idI)
qed

lemma replaceOrdinals_plain:
  assumes "\<forall>c \<in> set s. isDigit c \<or> c = CHR ''/''"
  shows "replaceOrdinals s months = s" and "replaceOrdinals s days = s"
proof -
  have "\<forall>name \<in> set months. name \<noteq> [] \<and> \<not> isDigit (hd name) \<and> hd name \<noteq> CHR ''/''"
    by (simp add: months_def isDigit_def)
  then have m: "\<forall>name \<in> set months. name \<noteq> [] \<and> hd name \<notin> set s"
    using assms by auto
  have "\<forall>name \<in> set days. name \<noteq> [] \<and> \<not> isDigit (hd name) \<and> hd name \<noteq> CHR ''/''"
    by (simp add: days_def isDigit_def)
  then have d: "\<forall>name \<in> set days. name \<noteq> [] \<and> hd name \<notin> set s"
    using assms by auto
  show "replaceOrdinals s months = s"
    using replaceOrdinalsFrom_absent [OF m] assms
    by (simp add: replaceOrdinals_def toUpper_plain)
  show "replaceOrdinals s days = s"
    using replaceOrdinalsFrom_absent [OF d] assms
    by (simp add: replaceOrdinals_def toUpper_plain)
qed

lemma digitsValue_nonneg:
  "list_all isDigit s \<Longrightarrow> 0 \<le> acc \<Longrightarrow> 0 \<le> digitsValue acc s"
  by (induction s arbitrary: acc) (auto simp: isDigit_def)

lemma Atoi_digits:
  assumes "s \<noteq> []" "list_all isDigit s" "digitsValue 0 s < 2 ^ 63"
  shows "Atoi s = Some (digitsValue 0 s)"
proof -
  obtain c r where s: "s = c # r"
    using assms(1) by (cases s) auto
  then have "isDigit c"
    using assms(2) by simp
  then have "c \<noteq> CHR ''-''" "c \<noteq> CHR ''+''"
    by (auto simp: isDigit_def)
  moreover have "0 \<le> digitsValue 0 s"
    using assms(2) by (simp add: digitsValue_nonneg)
  ultimately show ?thesis
    using assms s by (simp add: Atoi_def)
qed



lemma sint_of_small:
  "- (2 ^ 63) \<le> k \<Longrightarrow> k < 2 ^ 63 \<Longrightarrow> sint (word_of_int k :: 64 word) = k"
  by (simp add: sint_sbintrunc' signed_take_bit_int_eq_self)

lemma range_mask_bits:
  assumes "a < m" "m < 64"
  shows "bit (NOT (push_bit (Suc m) (- 1)) AND push_bit a (- 1) :: uint64) n
           \<longleftrightarrow> a \<le> n \<and> n \<le> m"
  using assms
  by (auto simp: bit_and_iff bit_not_iff bit_push_bit_iff bit_mask_iff possible_bit_word
        dest: bit_imp_le_length)


lemma parseFieldToken_slash:
  assumes sa: "sa \<noteq> []" "list_all isDigit sa"
    and ss: "ss \<noteq> []" "list_all isDigit ss"
    and lo: "0 \<le> MinValue ft" and hi: "MaxValue ft < 64"
    and a: "MinValue ft \<le> digitsValue 0 sa" "digitsValue 0 sa \<le> MaxValue ft"
    and st: "1 \<le> digitsValue 0 ss" "digitsValue 0 sa + digitsValue 0 ss < 2 ^ 63"
  shows "parseFieldToken ft 0 (sa @ CHR ''/'' # ss) =
        (if digitsValue 0 ss > 1 then
            stepLoop (word_of_int (digitsValue 0 sa)) (word_of_int (MaxValue ft))
              (word_of_int (digitsValue 0 ss)) 0
          else if digitsValue 0 sa = MaxValue ft then Ok (push_bit (nat (digitsValue 0 sa)) 1)
          else Ok (NOT (push_bit (nat (MaxValue ft + 1)) (- 1))
                   AND push_bit (nat (digitsValue 0 sa)) (- 1)))"
proof -
  let ?a = "digitsValue 0 sa" and ?s = "digitsValue 0 ss" and ?m = "MaxValue ft"
  have nodash: "CHR ''-'' \<notin> set sa" and noslash: "CHR ''/'' \<notin> set sa"
    and nostar: "sa \<noteq> ''*''"
    using sa by (auto simp: list_all_iff isDigit_def)
  have slashPos: "Index (sa @ CHR ''/'' # ss) ''/'' = int (length sa)"
    using Index_char_first [OF noslash, of ss] by simp
  have hyphen: "Index sa ''-'' = - 1"
    using Index_char_absent [OF nodash] by simp
  have atoi_a: "Atoi sa = Some ?a"
    using sa a hi by (intro Atoi_digits) auto
  have atoi_s: "Atoi ss = Some ?s"
    using ss st lo a by (intro Atoi_digits) auto
  have range: "parseRange sa ft = Ok (newValueRange ?a ?a)"
    using nostar hyphen atoi_a a by (simp add: parseRange_def checkValidValue_def)
  have a0: "0 \<le> ?a"
    using lo a by simp
  have n1: "nat (int (length sa) + 1) = Suc (length sa)"
    by simp
  have pos: "\<not> ?a < 0" "\<not> ?m + 1 < 0" "\<not> ?s \<le> 0" "\<not> ?m < 0"
    using a0 a st by auto
  show ?thesis
    unfolding parseFieldToken_def slashPos Let_def
    by (simp add: n1 range hyphen atoi_s newValueRange_def shiftLeft_def pos)
qed




lemma stepLoop_of_ints:
  assumes a0: "0 \<le> a" and am: "a \<le> m" and hi: "m < 64" and s1: "1 < s"
    and no: "a + s < 2 ^ 63"
  shows "\<exists>r. stepLoop (word_of_int a) (word_of_int m) (word_of_int s) 0 = Ok r
           \<and> (\<forall>n. bit r n \<longleftrightarrow> a \<le> int n \<and> int n \<le> m \<and> s dvd int n - a)"
proof -
  have sa: "sint (word_of_int a :: 64 word) = a"
    using a0 am hi by (intro sint_of_small) simp_all
  have sm: "sint (word_of_int m :: 64 word) = m"
    using a0 am hi by (intro sint_of_small) simp_all
  have ss: "sint (word_of_int s :: 64 word) = s"
    using a0 s1 no by (intro sint_of_small) simp_all
  have p1: "0 \<le> sint (word_of_int a :: 64 word)"
    using a0 by (simp only: sa)
  have p2: "1 < sint (word_of_int s :: 64 word)"
    using s1 by (simp only: ss)
  have p3: "sint (word_of_int a :: 64 word) \<le> sint (word_of_int m :: 64 word)
              \<longrightarrow> sint (word_of_int a :: 64 word) + sint (word_of_int s :: 64 word) < 2 ^ 63"
    using no by (simp only: sa ss simp_thms)
  have "m + s < 2 ^ 63 \<or> m < a + s"
    using a0 hi by (cases "m + s < 2 ^ 63") simp_all
  then have p4: "sint (word_of_int m :: 64 word) + sint (word_of_int s :: 64 word) < 2 ^ 63
              \<or> sint (word_of_int m :: 64 word)
                  < sint (word_of_int a :: 64 word) + sint (word_of_int s :: 64 word)"
    by (simp only: sa sm ss)
  have p5: "sint (word_of_int m :: 64 word) < 64"
    using hi by (simp only: sm)
  from stepLoop_bits [OF p1 p2 p3 p4 p5, of 0]
  obtain r where r: "stepLoop (word_of_int a) (word_of_int m) (word_of_int s) 0 = Ok r"
    and b: "\<forall>n. bit r n \<longleftrightarrow>
              bit (0 :: uint64) n
              \<or> (sint (word_of_int a :: 64 word) \<le> int n
                  \<and> int n \<le> sint (word_of_int m :: 64 word)
                  \<and> sint (word_of_int s :: 64 word) dvd int n - sint (word_of_int a :: 64 word))"
    by blast
  have "\<forall>n. bit r n \<longleftrightarrow> a \<le> int n \<and> int n \<le> m \<and> s dvd int n - a"
    using b unfolding sa sm ss by simp
  then show ?thesis
    using r by blast
qed

lemma parseFieldToken_step:
  assumes sa: "sa \<noteq> []" "list_all isDigit sa"
    and ss: "ss \<noteq> []" "list_all isDigit ss"
    and lo: "0 \<le> MinValue ft" and hi: "MaxValue ft < 64"
    and a: "MinValue ft \<le> digitsValue 0 sa" "digitsValue 0 sa \<le> MaxValue ft"
    and st: "1 \<le> digitsValue 0 ss" "digitsValue 0 sa + digitsValue 0 ss < 2 ^ 63"
  shows "\<exists>b. parseFieldToken ft 0 (sa @ CHR ''/'' # ss) = Ok b
           \<and> (\<forall>n. bit b n \<longleftrightarrow>
                  digitsValue 0 sa \<le> int n \<and> int n \<le> MaxValue ft
                  \<and> digitsValue 0 ss dvd int n - digitsValue 0 sa)"
proof -
  let ?a = "digitsValue 0 sa" and ?s = "digitsValue 0 ss" and ?m = "MaxValue ft"
  note pre = parseFieldToken_slash [OF sa ss lo hi a st]
  have a0: "0 \<le> ?a"
    using lo a by simp
  show ?thesis
  proof (cases "?s > 1")
    case True
    then have "parseFieldToken ft 0 (sa @ CHR ''/'' # ss)
                 = stepLoop (word_of_int ?a) (word_of_int ?m) (word_of_int ?s) 0"
      by (simp only: pre if_True)
    then show ?thesis
      using stepLoop_of_ints [OF a0 a(2) hi True st(2)] by (simp only:)
  next
    case False
    then have one: "?s = 1"
      using st by simp
    have notgt: "\<not> ?s > 1"
      using False .
    show ?thesis
    proof (cases "?a = ?m")
      case True
      have "parseFieldToken ft 0 (sa @ CHR ''/'' # ss) = Ok (push_bit (nat ?a) 1)"
        using True by (simp only: pre notgt if_False if_True simp_thms)
      moreover have "\<forall>n. bit (push_bit (nat ?a) 1 :: uint64) n
                         \<longleftrightarrow> ?a \<le> int n \<and> int n \<le> ?m \<and> ?s dvd int n - ?a"
      proof
        fix n
        have "bit (push_bit (nat ?a) 1 :: uint64) n \<longleftrightarrow> n = nat ?a \<and> n < 64"
          by (simp add: bit_one_shifted)
        also have "\<dots> \<longleftrightarrow> ?a \<le> int n \<and> int n \<le> ?m"
          using True a0 hi by auto
        finally show "bit (push_bit (nat ?a) 1 :: uint64) n
                         \<longleftrightarrow> ?a \<le> int n \<and> int n \<le> ?m \<and> ?s dvd int n - ?a"
          by (simp add: one)
      qed
      ultimately show ?thesis
        by blast
    next
      case ne: False
      have lt: "nat ?a < nat ?m" and m64: "nat ?m < 64"
        using ne a a0 hi by auto
      have suc: "nat (?m + 1) = Suc (nat ?m)"
        using a a0 by simp
      have "parseFieldToken ft 0 (sa @ CHR ''/'' # ss)
              = Ok (NOT (push_bit (Suc (nat ?m)) (- 1)) AND push_bit (nat ?a) (- 1))"
        using ne by (simp only: pre notgt if_False suc)
      moreover have "\<forall>n. bit (NOT (push_bit (Suc (nat ?m)) (- 1)) AND push_bit (nat ?a) (- 1)
                             :: uint64) n
                       \<longleftrightarrow> ?a \<le> int n \<and> int n \<le> ?m \<and> ?s dvd int n - ?a"
      proof
        fix n
        have "nat ?a \<le> n \<and> n \<le> nat ?m \<longleftrightarrow> ?a \<le> int n \<and> int n \<le> ?m"
          using a0 a by auto
        then show "bit (NOT (push_bit (Suc (nat ?m)) (- 1)) AND push_bit (nat ?a) (- 1)
                             :: uint64) n
                       \<longleftrightarrow> ?a \<le> int n \<and> int n \<le> ?m \<and> ?s dvd int n - ?a"
          by (simp only: range_mask_bits [OF lt m64] one one_dvd simp_thms)
      qed
      ultimately show ?thesis
        by blast
    qed
  qed
qed

text \<open>
  For each of the six fields, a value \<open>a\<close> of the field and a step of at least 1, both
  written in digits, with \<open>a + step\<close> within \<open>int\<close>: the token \<open>a/step\<close> parses, and
  bit \<open>n\<close> of the field is set exactly when \<open>n\<close> lies between \<open>a\<close> and the maximum of
  the field and \<open>n - a\<close> is a multiple of the step.
\<close>

lemma parseField_step_general:
  assumes ft: "ft \<in> set cronFieldTypes"
    and sa: "sa \<noteq> []" "list_all isDigit sa"
    and ss: "ss \<noteq> []" "list_all isDigit ss"
    and a: "MinValue ft \<le> digitsValue 0 sa" "digitsValue 0 sa \<le> MaxValue ft"
    and st: "1 \<le> digitsValue 0 ss" "digitsValue 0 sa + digitsValue 0 ss < 2 ^ 63"
  shows "\<exists>b. parseField (sa @ ''/'' @ ss) ft = Ok \<lparr>Typ = ft, Bits = b\<rparr>
           \<and> (\<forall>n. bit b n \<longleftrightarrow>
                  digitsValue 0 sa \<le> int n \<and> int n \<le> MaxValue ft
                  \<and> digitsValue 0 ss dvd int n - digitsValue 0 sa)"
proof -
  let ?tok = "sa @ CHR ''/'' # ss"
  have lo: "0 \<le> MinValue ft" and hi: "MaxValue ft < 64"
    using ft by (auto simp: cronFieldTypes_def second_def minute_def hour_def
        dayOfMonth_def month_def dayOfWeek_def)
  have plain: "\<forall>c \<in> set ?tok. isDigit c \<or> c = CHR ''/''"
    using sa ss by (auto simp: list_all_iff)
  have same: "fieldText ?tok ft = ?tok"
    using replaceOrdinals_plain [OF plain] by (simp add: fieldText_def)
  have "CHR '','' \<notin> set ?tok"
    using sa ss by (auto simp: list_all_iff isDigit_def)
  then have split: "Split ?tok '','' = [?tok]"
    using splitFrom_no_separator [of "CHR '',''" ?tok "[]"] by (simp add: Split_def)
  obtain b where b: "parseFieldToken ft 0 ?tok = Ok b"
    and bits: "\<forall>n. bit b n \<longleftrightarrow>
                  digitsValue 0 sa \<le> int n \<and> int n \<le> MaxValue ft
                  \<and> digitsValue 0 ss dvd int n - digitsValue 0 sa"
    using parseFieldToken_step [OF sa ss lo hi a st] by blast
  have "parseField ?tok ft = Ok \<lparr>Typ = ft, Bits = b\<rparr>"
    by (simp add: parseField_def same split b newFieldBits_def)
  then show ?thesis
    using bits by auto
qed

text \<open>
  C8. The claim: \<open>a/step\<close> sets every \<open>step\<close>-th value from \<open>a\<close> up to the maximum of
  the field, which for \<open>1/9223372036854775807\<close> in the minute field is the value 1 alone.
  The code: after bit 1 is set, \<open>index += step\<close> overflows \<open>int\<close> to the least integer,
  the loop condition \<open>index <= MaxValue\<close> still holds, and \<open>1 << index\<close> panics on the
  negative count.
\<close>

theorem parseField_step_overflow:
  "parseField ''1/9223372036854775807'' minute = Panic RuntimeNegativeShift"
  by code_simp

section \<open>Parsing: a step that is no positive integer\<close>

lemma fieldsFrom_nonempty: "f \<in> set (fieldsFrom cur s) \<Longrightarrow> f \<noteq> []"
  by (induction s arbitrary: cur) (auto split: if_splits)

lemma Fields_nonempty: "f \<in> set (Fields s) \<Longrightarrow> f \<noteq> []"
  by (simp add: Fields_def fieldsFrom_nonempty)

lemma parseFieldToken_bad_step:
  assumes "Index tok ''/'' \<noteq> - 1"
    and "parseRange (take (nat (Index tok ''/'')) tok) ft = Ok vr"
    and "Atoi (drop (nat (Index tok ''/'' + 1)) tok) = None
         \<or> (\<exists>n. Atoi (drop (nat (Index tok ''/'' + 1)) tok) = Some n \<and> n \<le> 0)"
  shows "parseFieldToken ft bits tok
           = Panic (case Atoi (drop (nat (Index tok ''/'' + 1)) tok) of
                      None \<Rightarrow> PanicError (drop (nat (Index tok ''/'' + 1)) tok)
                    | Some n \<Rightarrow> PanicMessage ''step must be 1 or higher'')"
  using assms by (auto simp: parseFieldToken_def Let_def)

lemma parseFieldTokens_panic:
  assumes "parseFieldTokens ft bits pre = Ok b" and "parseFieldToken ft b tok = Panic x"
  shows "parseFieldTokens ft bits (pre @ tok # post) = Panic x"
  using assms by (induction pre arbitrary: bits) (auto split: result.splits)

lemma parseFields_panic:
  assumes "\<forall>y \<in> set pre. \<exists>v. parseField (fst y) (snd y) = Ok v"
    and "parseField f ft = Panic x"
  shows "parseFields ce (pre @ (f, ft) # post) = Panic x"
  using assms by (induction pre arbitrary: ce) (auto split: result.splits)

text \<open>
  In general: take an expression of six fields whose fields before the \<open>k\<close>-th parse,
  and in the \<open>k\<close>-th field (names replaced by ordinals, split at the commas) a token
  \<open>tok\<close> whose earlier tokens parse. If \<open>tok\<close> has a slash, the part before the slash
  is a valid range, and the part behind it is not a number or is a number not above 0,
  then \<open>ParseCronExpression\<close> panics, with the error of \<open>Atoi\<close> in the first case and
  with \<open>step must be 1 or higher\<close> in the second.
\<close>

lemma bad_step_panics:
  assumes six: "length (Fields expression) = 6"
    and k: "k < 6"
    and before: "\<forall>j<k. \<exists>v. parseField (Fields expression ! j) (cronFieldTypes ! j) = Ok v"
    and toks: "Split (fieldText (Fields expression ! k) (cronFieldTypes ! k)) '',''
                 = pre @ tok # post"
    and pre: "parseFieldTokens (cronFieldTypes ! k) 0 pre = Ok b"
    and slash: "Index tok ''/'' \<noteq> - 1"
    and range: "parseRange (take (nat (Index tok ''/'')) tok) (cronFieldTypes ! k) = Ok vr"
    and bad: "Atoi (drop (nat (Index tok ''/'' + 1)) tok) = None
         \<or> (\<exists>n. Atoi (drop (nat (Index tok ''/'' + 1)) tok) = Some n \<and> n \<le> 0)"
  shows "ParseCronExpression expression
           = Panic (case Atoi (drop (nat (Index tok ''/'' + 1)) tok) of
                      None \<Rightarrow> PanicError (drop (nat (Index tok ''/'' + 1)) tok)
                    | Some n \<Rightarrow> PanicMessage ''step must be 1 or higher'')"
    (is "_ = Panic ?x")
proof -
  let ?fs = "Fields expression"
  let ?z = "zip ?fs cronFieldTypes"
  have lz: "length ?z = 6"
    using six by (simp add: cronFieldTypes_def)
  have x: "parseFieldToken (cronFieldTypes ! k) b tok = Panic ?x"
    using parseFieldToken_bad_step [OF slash range bad] .
  have ne: "?fs ! k \<noteq> []"
    using Fields_nonempty [of "?fs ! k" expression] six k by simp
  have pf: "parseField (?fs ! k) (cronFieldTypes ! k) = Panic ?x"
    using ne parseFieldTokens_panic [OF _ x, of 0 pre post] pre toks
    by (simp add: parseField_def newFieldBits_def)
  have split: "?z = take k ?z @ (?fs ! k, cronFieldTypes ! k) # drop (Suc k) ?z"
    using id_take_nth_drop [of k ?z] lz k six by (simp add: cronFieldTypes_def)
  have ok: "\<forall>y \<in> set (take k ?z). \<exists>v. parseField (fst y) (snd y) = Ok v"
  proof
    fix y assume "y \<in> set (take k ?z)"
    then obtain j where j: "j < k" and y: "y = ?z ! j"
      using lz k by (auto simp: in_set_conv_nth)
    then have "y = (?fs ! j, cronFieldTypes ! j)"
      using six k by (simp add: cronFieldTypes_def)
    then show "\<exists>v. parseField (fst y) (snd y) = Ok v"
      using before j by simp
  qed
  have "parseFields newCronExpression ?z = Panic ?x"
    using parseFields_panic [OF ok pf, of newCronExpression "drop (Suc k) ?z"] split by simp
  moreover have "expression \<noteq> []"
    using six by (auto simp: Fields_def)
  ultimately show ?thesis
    using six by (simp add: ParseCronExpression_def Let_def)
qed

text \<open>
  C5. The claim: a step that is no positive integer makes \<open>ParseCronExpression\<close>
  return an error to the caller. The code: \<open>parseField\<close> returns the error of
  \<open>parseRange\<close> and of an empty value, but a step that \<open>Atoi\<close> refuses ends in
  \<open>panic(err)\<close> and a step not above 0 in \<open>panic("step must be 1 or higher")\<close>. With
  the step \<open>0\<close>, or the step \<open>x\<close>, behind a valid value, \<open>ParseCronExpression\<close> returns
  no error; it panics.
\<close>

theorem bad_step_panics_instead_of_error:
  "ParseCronExpression ''0/0 * * * * *'' = Panic (PanicMessage ''step must be 1 or higher'')
   \<and> ParseCronExpression ''0/x * * * * *'' = Panic (PanicError ''x'')
   \<and> \<not> (\<exists>e. ParseCronExpression ''0/0 * * * * *'' = Err e)
   \<and> \<not> (\<exists>e. ParseCronExpression ''0/x * * * * *'' = Err e)"
proof -
  have a: "ParseCronExpression ''0/0 * * * * *''
             = Panic (PanicMessage ''step must be 1 or higher'')"
    by code_simp
  have b: "ParseCronExpression ''0/x * * * * *'' = Panic (PanicError ''x'')"
    by code_simp
  show ?thesis
    by (simp add: a b)
qed

section \<open>The next instant\<close>

lemma nextFrom_same_or_zero: "nextFrom fs t = t \<or> nextFrom fs t = zeroTime"
  by (induction fs) (auto simp: Let_def)

lemma next_ce_same_or_zero: "next_ce expression t = t \<or> next_ce expression t = zeroTime"
  by (simp add: next_ce_def nextFrom_same_or_zero)

text \<open>
  Since \<open>next\<close> returns its argument or the zero instant, the loop of \<open>NextTime\<close> returns
  in its first round.
\<close>

lemma nextTimeLoop_first: "nextTimeLoop expression 0 t = next_ce expression t"
  using next_ce_same_or_zero [of expression t]
  by (subst nextTimeLoop.simps) (auto simp: maxAttempts_def IsZero_def Equal_def Let_def)

lemma NextTime_next_ce:
  "NextTime expression t
     = next_ce expression (Add t (1 * Second_d - Nanosecond t * Nanosecond_d))"
  by (simp add: NextTime_def nextTimeLoop_first)

lemma round_up_after: "t < Add t (1 * Second_d - Nanosecond t * Nanosecond_d)"
proof -
  have "t mod 1000000000 < 1000000000"
    by simp
  then show ?thesis
    by (simp add: Add_def Second_d_def Nanosecond_def Nanosecond_d_def)
qed

text \<open>
  \<open>NextTime\<close> returns the zero instant or an instant after \<open>t\<close>, for every
  expression and every \<open>t\<close>.
\<close>

lemma NextTime_after_or_zero:
  "IsZero (NextTime expression t) \<or> After (NextTime expression t) t"
  using next_ce_same_or_zero [of expression "Add t (1 * Second_d - Nanosecond t * Nanosecond_d)"]
    round_up_after [of t]
  by (auto simp: NextTime_next_ce IsZero_def After_def)

text \<open>The empty loop of \<open>next\<close> ends with the count it started from, or with \<open>maxAttempts\<close>.\<close>

lemma countLoop_value:
  "countLoop current nxt count
     = (if int current \<noteq> nxt \<and> count < maxAttempts then maxAttempts else count)"
proof (induction current nxt count rule: countLoop.induct)
  case (1 current nxt count)
  show ?case
  proof (cases "int current \<noteq> nxt \<and> count < maxAttempts")
    case True
    then have "countLoop current nxt count = countLoop current nxt (count + 1)"
      by (subst countLoop.simps) simp
    also have "\<dots> = maxAttempts"
      using "1.IH" [OF True] True by auto
    finally show ?thesis
      using True by simp
  next
    case False
    then show ?thesis
      by (subst countLoop.simps) auto
  qed
qed

text \<open>
  When a field has no set bit at or after the current value, and its first set bit is
  neither the current value nor the value of the shifted \<open>temp\<close>, \<open>next\<close> returns the
  zero instant.
\<close>

lemma nextFrom_gives_up:
  assumes "setNextBit (Bits field) (getTimeValue t (Field (Typ field))) = - 1"
    and "setNextBit (Bits field) 0 \<noteq> int (getTimeValue t (Field (Typ field)))"
    and "int (getTimeValue
               (addTime t (Field (Typ field))
                  (MaxValue (Typ field) - int (getTimeValue t (Field (Typ field))) + 1))
               (Field (Typ field)))
           \<noteq> setNextBit (Bits field) 0"
  shows "nextFrom (field # rest) t = zeroTime"
  using assms by (simp add: Let_def countLoop_value maxAttempts_def)

text \<open>
  C7. The claim: \<open>NextTime(t)\<close> is after \<open>t\<close> or is the zero instant, and \<open>NextTime\<close> of
  a result that is not zero is never earlier than that result. The code: for
  \<open>30 * * * * *\<close> and 2021-01-01 00:00:29 UTC, \<open>NextTime\<close> returns 00:00:30; applied to
  00:00:30 it starts from 00:00:31, finds no set bit from 31 on, and since the empty loop
  cannot bring the seconds to 30 it returns the zero instant, which is before 00:00:30,
  although 00:01:30 is later and satisfies the expression.
\<close>

theorem NextTime_twice_is_earlier:
  "\<exists>e. ParseCronExpression ''30 * * * * *'' = Ok e
     \<and> NextTime e 63745056029000000000 = 63745056030000000000
     \<and> \<not> IsZero (NextTime e 63745056029000000000)
     \<and> NextTime e (NextTime e 63745056029000000000) = zeroTime
     \<and> Before (NextTime e (NextTime e 63745056029000000000))
          (NextTime e 63745056029000000000)
     \<and> After 63745056090000000000 (NextTime e 63745056029000000000)
     \<and> satisfiesFields e 63745056090000000000"
proof -
  let ?f = "\<lparr>Typ = second, Bits = 1073741824\<rparr>"
  let ?t = "63745056031000000000 :: Time"
  have p: "ParseCronExpression ''30 * * * * *'' = Ok \<lparr>fields_ce =
       [?f,
        \<lparr>Typ = minute, Bits = 1152921504606846975\<rparr>,
        \<lparr>Typ = hour, Bits = 16777215\<rparr>,
        \<lparr>Typ = dayOfMonth, Bits = 4294967294\<rparr>,
        \<lparr>Typ = month, Bits = 8190\<rparr>,
        \<lparr>Typ = dayOfWeek, Bits = 127\<rparr>]\<rparr>" (is "_ = Ok ?e")
    by code_simp
  have a: "Add 63745056029000000000
             (1 * Second_d - Nanosecond 63745056029000000000 * Nanosecond_d)
           = 63745056030000000000"
    by code_simp
  have b: "next_ce ?e 63745056030000000000 = 63745056030000000000"
    by code_simp
  have n: "NextTime ?e 63745056029000000000 = 63745056030000000000"
    by (simp only: NextTime_next_ce a b)
  have a': "Add 63745056030000000000
              (1 * Second_d - Nanosecond 63745056030000000000 * Nanosecond_d)
            = ?t"
    by code_simp
  have h1: "setNextBit (Bits ?f) (getTimeValue ?t (Field (Typ ?f))) = - 1"
    by code_simp
  have h2: "setNextBit (Bits ?f) 0 \<noteq> int (getTimeValue ?t (Field (Typ ?f)))"
    by code_simp
  have h3: "int (getTimeValue
               (addTime ?t (Field (Typ ?f))
                  (MaxValue (Typ ?f) - int (getTimeValue ?t (Field (Typ ?f))) + 1))
               (Field (Typ ?f)))
           \<noteq> setNextBit (Bits ?f) 0"
    by code_simp
  have b': "next_ce ?e ?t = zeroTime"
    unfolding next_ce_def CronExpression.simps
    by (rule nextFrom_gives_up [OF h1 h2 h3])
  have n': "NextTime ?e 63745056030000000000 = zeroTime"
    by (simp only: NextTime_next_ce a' b')
  have z: "\<not> IsZero (63745056030000000000 :: Time)"
    by code_simp
  have bf: "Before zeroTime 63745056030000000000"
    by code_simp
  have af: "After 63745056090000000000 63745056030000000000"
    by code_simp
  have s: "satisfiesFields ?e 63745056090000000000"
    by code_simp
  show ?thesis
    using p n n' z bf af s by simp
qed

text \<open>
  C2. The claim: a result of \<open>NextTime\<close> that is not zero satisfies all six fields. The
  code: \<open>next\<close> returns \<open>t\<close> at the first field whose next bit is the current value. For
  \<open>* 5 * * * *\<close> and 2021-01-01 00:00:00 UTC that field is the seconds, so \<open>NextTime\<close>
  returns 00:00:01, whose minute 0 is not in the minute set.
\<close>

theorem next_returns_at_first_match:
  "\<exists>e. ParseCronExpression ''* 5 * * * *'' = Ok e
     \<and> NextTime e 63745056000000000000 = 63745056001000000000
     \<and> \<not> IsZero (NextTime e 63745056000000000000)
     \<and> Minute (NextTime e 63745056000000000000) = 0
     \<and> \<not> satisfiesFields e (NextTime e 63745056000000000000)"
proof -
  have p: "ParseCronExpression ''* 5 * * * *'' = Ok \<lparr>fields_ce =
       [\<lparr>Typ = second, Bits = 1152921504606846975\<rparr>,
        \<lparr>Typ = minute, Bits = 32\<rparr>,
        \<lparr>Typ = hour, Bits = 16777215\<rparr>,
        \<lparr>Typ = dayOfMonth, Bits = 4294967294\<rparr>,
        \<lparr>Typ = month, Bits = 8190\<rparr>,
        \<lparr>Typ = dayOfWeek, Bits = 127\<rparr>]\<rparr>" (is "_ = Ok ?e")
    by code_simp
  have a: "Add 63745056000000000000
             (1 * Second_d - Nanosecond 63745056000000000000 * Nanosecond_d)
           = 63745056001000000000"
    by code_simp
  have b: "next_ce ?e 63745056001000000000 = 63745056001000000000"
    by code_simp
  have n: "NextTime ?e 63745056000000000000 = 63745056001000000000"
    by (simp only: NextTime_next_ce a b)
  have z: "\<not> IsZero (63745056001000000000 :: Time)"
    by code_simp
  have m: "Minute 63745056001000000000 = 0"
    by code_simp
  have s: "\<not> satisfiesFields ?e 63745056001000000000"
    by code_simp
  show ?thesis
    using p n z m s by simp
qed

section \<open>Tasks and the executor\<close>

text \<open>
  C10. \<open>NewReschedulableTask\<close> panics whenever the trigger is not nil; a task it returns
  has a nil trigger; and \<open>Schedule\<close> of a \<open>ReschedulableTask\<close> returns nil for every
  receiver.
\<close>

theorem NewReschedulableTask_rejects_trigger:
  "(trigger' \<noteq> None \<longrightarrow> (\<exists>x. NewReschedulableTask executor' trigger' = Panic x))
   \<and> (NewReschedulableTask executor' trigger' = Ok r \<longrightarrow> trigger r = None)
   \<and> Schedule_rt task' = nilPtr"
  by (auto simp: NewReschedulableTask_def Schedule_rt_def split: if_splits)

theorem NewReschedulableTask_rejects_trigger_witness:
  "Some (1::nat) \<noteq> None
   \<and> (\<exists>x. NewReschedulableTask (Some (2::nat)) (Some (1::nat)) = Panic x)
   \<and> NewReschedulableTask (Some (2::nat)) (None :: nat option)
       = Ok \<lparr>executor = Some 2, trigger = None\<rparr>
   \<and> trigger \<lparr>executor = Some (2::nat), trigger = (None :: nat option)\<rparr> = None"
proof -
  have ok: "NewReschedulableTask (Some (2::nat)) (None :: nat option)
              = Ok \<lparr>executor = Some 2, trigger = None\<rparr>"
    by (simp add: NewReschedulableTask_def)
  have ne: "Some (1::nat) \<noteq> None"
    by simp
  from NewReschedulableTask_rejects_trigger
         [of "Some (1::nat)" "Some (2::nat)"
             "\<lparr>executor = Some (2::nat), trigger = Some (1::nat)\<rparr>"
             "None :: (nat, nat) ReschedulableTask option"]
  have panics: "\<exists>x. NewReschedulableTask (Some (2::nat)) (Some (1::nat)) = Panic x"
    using ne by blast
  from NewReschedulableTask_rejects_trigger
         [of "None :: nat option" "Some (2::nat)"
             "\<lparr>executor = Some (2::nat), trigger = (None :: nat option)\<rparr>"
             "None :: (nat, nat) ReschedulableTask option"]
  have "trigger \<lparr>executor = Some (2::nat), trigger = (None :: nat option)\<rparr> = None"
    using ok by blast
  then show ?thesis
    using panics ok ne by blast
qed

text \<open>
  The deferred function of a worker sends every task that is not fixed-rate back to
  \<open>run\<close>, whatever its period.
\<close>

lemma workerReturn_resends:
  assumes "task (heap s p) \<noteq> None" and "\<not> fixedRate (heap s p)"
  shows "\<exists>s'. workerReturn p now s = Ok s' \<and> p \<in> set (senders s')
           \<and> period (heap s' p) = period (heap s p)"
  using assms by (simp add: workerReturn_def IsFixedRate_def Let_def)

text \<open>
  C1. The claim: after \<open>Schedule(task, 0)\<close> the task fires once and is never dispatched
  again. The code: the deferred function of the worker sends every task that is not
  fixed-rate back on \<open>newTaskChannel\<close>, the one-shot task too. The executor starts at
  clock 1000; the task is scheduled at 2000 and received, the timer fires at 2001 and
  the task is started and leaves the queue; its body returns at 3000 and \<open>run\<close> receives
  the task again: it is back in the queue, with period 0. The timer fires at 3001 and
  the task is started a second time.
\<close>

theorem one_shot_dispatched_twice:
  "(case exec [CallSchedule (Some ()) 0 2000, NewTaskReceived 1, TimerFires 2001,
               WorkerReturns 1 3000, NewTaskReceived 1]
          (NewScheduledTaskExecutor 1000) of
      Some (Ok s) \<Rightarrow>
        queued s = [1] \<and> started s = [1] \<and> period (heap s 1) = 0
        \<and> \<not> fixedRate (heap s 1)
    | _ \<Rightarrow> False)
   \<and> (case exec [CallSchedule (Some ()) 0 2000, NewTaskReceived 1, TimerFires 2001,
                  WorkerReturns 1 3000, NewTaskReceived 1, TimerFires 3001]
             (NewScheduledTaskExecutor 1000) of
         Some (Ok s) \<Rightarrow> started s = [1, 1] \<and> workers s = [1]
       | _ \<Rightarrow> False)"
  by code_simp

text \<open>
  In every state, when the search of the remove case finds no task, the slice
  expression panics.
\<close>

lemma onRemoveTask_not_found:
  assumes "task' \<noteq> nilPtr"
    and "findTask (heap s) (taskQueue s) (id_st (heap s task')) [0..<len_s (taskQueue s)]
           = Ok (- 1)"
  shows "onRemoveTask task' s = Panic RuntimeSliceBounds"
  using assms by (simp add: onRemoveTask_def removeAt_def)

text \<open>
  C3. The claim: a remove event for an identity that is not in the queue leaves the
  queue as it is and the loop running. The code: \<open>taskIndex\<close> is still \<open>-1\<close> after the
  search and \<open>executor.taskQueue[:taskIndex]\<close> panics. Here the task has fired and left
  the queue when the remove event for its handle arrives.
\<close>

theorem remove_unknown_panics:
  "(case exec [CallSchedule (Some ()) 0 2000, NewTaskReceived 1, TimerFires 2001]
          (NewScheduledTaskExecutor 1000) of
      Some (Ok s) \<Rightarrow> queued s = [] \<and> started s = [1]
    | _ \<Rightarrow> False)
   \<and> (case exec [CallSchedule (Some ()) 0 2000, NewTaskReceived 1, TimerFires 2001,
                  RemoveTaskReceived 1]
             (NewScheduledTaskExecutor 1000) of
         Some (Panic x) \<Rightarrow> x = RuntimeSliceBounds
       | _ \<Rightarrow> False)"
  by code_simp

text \<open>Every task that \<open>NewScheduledTask\<close> makes has the \<open>id\<close> 0.\<close>

lemma NewScheduledTask_id: "id_st (NewScheduledTask task' triggerTime' period' fixedRate') = 0"
  by (simp add: NewScheduledTask_def)

text \<open>
  C4. The claim: each task gets its own identity when it is created, so that a remove
  with the handle of one task removes that task and no other. The code:
  \<open>NewScheduledTask\<close> leaves \<open>id\<close> at 0 for every task and nothing else writes it. Two
  tasks are scheduled, for 7000 and for 8001, and both are in the queue; the remove event
  with the handle of the second removes the first.
\<close>

theorem remove_takes_first_task:
  "id_st (NewScheduledTask (Some ()) 7000 0 False) = 0
   \<and> id_st (NewScheduledTask (Some ()) 8001 0 False) = 0
   \<and> (case exec [CallSchedule (Some ()) 5000 2000, CallSchedule (Some ()) 6000 2001,
                  NewTaskReceived 1, NewTaskReceived 2]
             (NewScheduledTaskExecutor 1000) of
         Some (Ok s) \<Rightarrow>
           queued s = [1, 2] \<and> triggerTime (heap s 1) = 7000 \<and> triggerTime (heap s 2) = 8001
           \<and> id_st (heap s 1) = id_st (heap s 2)
       | _ \<Rightarrow> False)
   \<and> (case exec [CallSchedule (Some ()) 5000 2000, CallSchedule (Some ()) 6000 2001,
                  NewTaskReceived 1, NewTaskReceived 2, RemoveTaskReceived 2]
             (NewScheduledTaskExecutor 1000) of
         Some (Ok s) \<Rightarrow> queued s = [2]
       | _ \<Rightarrow> False)"
  by code_simp

end
